theory Spec2Isabelle
  imports Main "HOL-Library.Sublist"
begin

section \<open>The notebook converter \<open>tools/nb_to_jl.py\<close>\<close>

text \<open>
  The script reads a Jupyter notebook, keeps the cells tagged \<open>code\<close> and writes their
  sources, each followed by a blank line, to a file next to the notebook.

  The system is POSIX: \<open>os.path\<close> is \<open>posixpath\<close>, a file name and the content of a file are
  sequences of bytes (\<^typ>\<open>string\<close>), and a text file written with \<open>encoding='utf-8'\<close> holds
  the UTF-8 bytes of the strings written to it, newlines untranslated. The path that
  \<open>argparse\<close> delivers is kept as its bytes; \<open>endswith\<close>, \<open>rfind\<close> of an ASCII character and
  slicing at the index found act on the bytes as they act on the \<open>str\<close>. A \<open>str\<close> inside the
  notebook is a sequence of code points (\<open>pystr\<close>), since not every \<open>str\<close> that JSON can
  deliver has UTF-8 bytes.
\<close>

subsection \<open>Data model\<close>

type_synonym pystr = "nat list"

text \<open>An ASCII literal of the script as a \<open>str\<close>.\<close>

definition str_of :: "string \<Rightarrow> pystr" where
  "str_of s = map of_char s"

text \<open>
  What an attribute of a cell can hold: a \<open>str\<close>, or some other JSON value (null, a
  number, a boolean, an object).
\<close>

datatype pyvalue = Str pystr | Other

text \<open>
  The two attributes of an \<open>nbformat\<close> cell that the script reads; \<open>None\<close> when the cell
  has no such key, in which case reading the attribute raises \<open>AttributeError\<close>.
  \<open>nbformat.read\<close> checks a notebook against the schema but only logs what it finds, so
  it does return cells without these keys or with other values under them.
\<close>

record cell =
  cell_type :: "pyvalue option"
  source :: "pyvalue option"

record notebook =
  cells :: "cell list"

text \<open>
  The part of the outside world the script touches: the regular files by path, which
  paths can be opened for writing, and the bytes printed on standard output so far.
  A path that is not in \<open>files\<close> cannot be opened for reading.
\<close>

record world =
  files :: "string \<rightharpoonup> string"
  can_write :: "string \<Rightarrow> bool"
  stdout :: string

text \<open>
  The exceptions that leave the script: the \<open>ValueError\<close> of \<open>main\<close> with its message,
  the \<open>OSError\<close> of a failed \<open>open\<close> with the path, whatever \<open>nbformat.read\<close> raises, and
  the three that the loop over the cells can raise: \<open>AttributeError\<close> with the name of the
  missing attribute, \<open>TypeError\<close> from \<open>cell.source + '\n\n'\<close>, and \<open>UnicodeEncodeError\<close>
  from \<open>f.write\<close>.
\<close>

datatype error =
    ValueError string
  | OSError string
  | ReadError
  | AttributeError string
  | TypeError
  | UnicodeEncodeError

subsection \<open>The library functions the script calls\<close>

text \<open>\<open>str.endswith\<close>: the last \<open>len(suf)\<close> characters are compared with \<open>suf\<close>.\<close>

definition endswith :: "string \<Rightarrow> string \<Rightarrow> bool" where
  "endswith s suf =
     (length suf \<le> length s \<and> drop (length s - length suf) s = suf)"

text \<open>\<open>str.rfind\<close> of one character: the highest index holding it, or \<open>-1\<close>.\<close>

fun rfind_from :: "string \<Rightarrow> char \<Rightarrow> nat \<Rightarrow> int" where
  "rfind_from s c 0 = - 1"
| "rfind_from s c (Suc i) = (if s ! i = c then int i else rfind_from s c i)"

definition rfind :: "string \<Rightarrow> char \<Rightarrow> int" where
  "rfind s c = rfind_from s c (length s)"

text \<open>
  \<open>genericpath._splitext\<close>, which \<open>posixpath.splitext\<close> calls with \<open>sep = '/'\<close>,
  \<open>altsep = None\<close> and \<open>extsep = '.'\<close>:
  \<^verbatim>\<open>
    sepIndex = p.rfind(sep)
    if altsep:
        altsepIndex = p.rfind(altsep)
        sepIndex = max(sepIndex, altsepIndex)
    dotIndex = p.rfind(extsep)
    if dotIndex > sepIndex:
        # skip all leading dots
        filenameIndex = sepIndex + 1
        while filenameIndex < dotIndex:
            if p[filenameIndex:filenameIndex+1] != extsep:
                return p[:dotIndex], p[dotIndex:]
            filenameIndex += 1
    return p, p[:0]
  \<close>
  The \<open>while\<close> loop is \<open>skip_leading_dots\<close>; it answers \<open>None\<close> when it runs to its end
  without returning.
\<close>

function skip_leading_dots ::
    "string \<Rightarrow> char \<Rightarrow> int \<Rightarrow> int \<Rightarrow> (string \<times> string) option" where
  "skip_leading_dots p extsep filenameIndex dotIndex =
     (if filenameIndex < dotIndex then
        (if p ! nat filenameIndex \<noteq> extsep
         then Some (take (nat dotIndex) p, drop (nat dotIndex) p)
         else skip_leading_dots p extsep (filenameIndex + 1) dotIndex)
      else None)"
  by pat_completeness auto
termination
  by (relation "measure (\<lambda>(p, e, f, d). nat (d - f))") auto

declare skip_leading_dots.simps [simp del]

definition genericpath_splitext ::
    "string \<Rightarrow> char \<Rightarrow> char option \<Rightarrow> char \<Rightarrow> string \<times> string" where
  "genericpath_splitext p sep altsep extsep =
     (let sepIndex = (case altsep of
                        None \<Rightarrow> rfind p sep
                      | Some a \<Rightarrow> max (rfind p sep) (rfind p a));
          dotIndex = rfind p extsep
      in if dotIndex > sepIndex then
           (case skip_leading_dots p extsep (sepIndex + 1) dotIndex of
              Some r \<Rightarrow> r
            | None \<Rightarrow> (p, []))
         else (p, []))"

definition splitext :: "string \<Rightarrow> string \<times> string" where
  "splitext p = genericpath_splitext p (CHR ''/'') None (CHR ''.'')"

text \<open>
  \<open>str.encode('utf-8')\<close> with strict error handling, code point by code point: one to
  four bytes, and no bytes at all for a surrogate (\<open>D800\<close> to \<open>DFFF\<close>). A number above
  \<open>10FFFF\<close> is not a code point and has no bytes either.
\<close>

definition utf8_char :: "nat \<Rightarrow> string option" where
  "utf8_char cp =
     (if cp < 0x80 then Some [char_of cp]
      else if cp < 0x800 then
        Some [char_of (0xC0 + cp div 0x40), char_of (0x80 + cp mod 0x40)]
      else if cp < 0x10000 then
        (if 0xD800 \<le> cp \<and> cp < 0xE000 then None
         else Some [char_of (0xE0 + cp div 0x1000), char_of (0x80 + cp div 0x40 mod 0x40),
                    char_of (0x80 + cp mod 0x40)])
      else if cp < 0x110000 then
        Some [char_of (0xF0 + cp div 0x40000), char_of (0x80 + cp div 0x1000 mod 0x40),
              char_of (0x80 + cp div 0x40 mod 0x40), char_of (0x80 + cp mod 0x40)]
      else None)"

fun utf8_encode :: "pystr \<Rightarrow> string option" where
  "utf8_encode [] = Some []"
| "utf8_encode (cp # cps) =
     (case utf8_char cp of
        None \<Rightarrow> None
      | Some bs \<Rightarrow> (case utf8_encode cps of None \<Rightarrow> None | Some r \<Rightarrow> Some (bs @ r)))"

text \<open>
  \<open>open(path, 'w')\<close> creates the file or truncates it to zero bytes, and raises when the
  path cannot be opened for writing. The file object \<open>f\<close> is modelled by the bytes written
  through it so far. \<open>f.write(s)\<close> encodes the whole of \<open>s\<close> first: it appends the bytes, or
  raises and appends nothing. Leaving the \<open>with\<close> block closes \<open>f\<close>, on return and on an
  exception alike, and the file then holds what was written through \<open>f\<close>.
  \<open>print(s)\<close> appends \<open>s\<close> and a newline to standard output.
\<close>

definition open_w :: "string \<Rightarrow> world \<Rightarrow> error + world" where
  "open_w path w =
     (if can_write w path then Inr (w\<lparr>files := (files w)(path \<mapsto> [])\<rparr>)
      else Inl (OSError path))"

definition f_write :: "pystr \<Rightarrow> string \<Rightarrow> error + string" where
  "f_write s f =
     (case utf8_encode s of
        None \<Rightarrow> Inl UnicodeEncodeError
      | Some bs \<Rightarrow> Inr (f @ bs))"

definition f_close :: "string \<Rightarrow> string \<Rightarrow> world \<Rightarrow> world" where
  "f_close path f w = w\<lparr>files := (files w)(path \<mapsto> f)\<rparr>"

definition print :: "string \<Rightarrow> world \<Rightarrow> world" where
  "print s w = w\<lparr>stdout := stdout w @ s @ ''\<newline>''\<rparr>"

subsection \<open>The script\<close>

text \<open>
  The body of the second \<open>with\<close> block of \<open>convert_notebook_to_julia\<close>:
  \<^verbatim>\<open>
    for cell in nb.cells:
        if cell.cell_type == 'code':
            f.write(cell.source + '\n\n')
  \<close>
  The result is the exception that ended the loop, if any, and what has been written
  through \<open>f\<close> by then.
\<close>

fun write_cells :: "cell list \<Rightarrow> string \<Rightarrow> (error + unit) \<times> string" where
  "write_cells [] f = (Inr (), f)"
| "write_cells (c # rest) f =
     (case cell_type c of
        None \<Rightarrow> (Inl (AttributeError ''cell_type''), f)
      | Some t \<Rightarrow>
          if t = Str (str_of ''code'') then
            (case source c of
               None \<Rightarrow> (Inl (AttributeError ''source''), f)
             | Some Other \<Rightarrow> (Inl TypeError, f)
             | Some (Str s) \<Rightarrow>
                 (case f_write (s @ str_of ''\<newline>\<newline>'') f of
                    Inl e \<Rightarrow> (Inl e, f)
                  | Inr f' \<Rightarrow> write_cells rest f'))
          else write_cells rest f)"

text \<open>
  \<open>convert_notebook_to_julia\<close>. \<open>nbread\<close> stands for \<open>nbformat.read(f, as_version=4)\<close>
  applied to the bytes of the file: \<open>None\<close> when it raises. The result is the exception
  that left the function, if any, and the world it left behind.
\<close>

definition convert_notebook_to_julia ::
    "(string \<Rightarrow> notebook option) \<Rightarrow> string \<Rightarrow> string \<Rightarrow> world
       \<Rightarrow> (error + unit) \<times> world" where
  "convert_notebook_to_julia nbread notebook_path output_path w =
     (case files w notebook_path of
        None \<Rightarrow> (Inl (OSError notebook_path), w)
      | Some txt \<Rightarrow>
          (case nbread txt of
             None \<Rightarrow> (Inl ReadError, w)
           | Some nb \<Rightarrow>
               (case open_w output_path w of
                  Inl e \<Rightarrow> (Inl e, w)
                | Inr w' \<Rightarrow>
                    (case write_cells (cells nb) [] of
                       (r, f) \<Rightarrow> (r, f_close output_path f w')))))"

text \<open>Line 29 of \<open>main\<close>: \<open>os.path.splitext(notebook_path)[0] + ".jl"\<close>.\<close>

definition output_path_of :: "string \<Rightarrow> string" where
  "output_path_of notebook_path = fst (splitext notebook_path) @ ''.jl''"

text \<open>
  \<open>main\<close>, from the point where \<open>argparse\<close> has delivered \<open>args.notebook\<close>, which is the
  argument \<open>notebook_path\<close> here.
\<close>

definition main ::
    "(string \<Rightarrow> notebook option) \<Rightarrow> string \<Rightarrow> world \<Rightarrow> (error + unit) \<times> world" where
  "main nbread notebook_path w =
     (if \<not> endswith notebook_path ''.ipynb''
      then (Inl (ValueError ''Input file must have a .ipynb extension''), w)
      else
        (let output_path = output_path_of notebook_path in
         case convert_notebook_to_julia nbread notebook_path output_path w of
           (Inl e, w') \<Rightarrow> (Inl e, w')
         | (Inr u, w') \<Rightarrow>
             (Inr (),
              print (''Converted '' @ notebook_path @ '' to '' @ output_path) w')))"

text \<open>
  Running the module as a script: the interpreter exits with status 0 when \<open>main\<close>
  returns and with status 1 when an exception leaves it.
\<close>

definition run_script ::
    "(string \<Rightarrow> notebook option) \<Rightarrow> string \<Rightarrow> world \<Rightarrow> int \<times> world" where
  "run_script nbread notebook_path w =
     (case main nbread notebook_path w of
        (Inl e, w') \<Rightarrow> (1, w')
      | (Inr u, w') \<Rightarrow> (0, w'))"

subsection \<open>What the specification says the output is\<close>

text \<open>
  A code cell is a cell whose type tag is the \<open>str\<close> \<open>code\<close>. The payload of a cell, as
  bytes, exists when its source is a \<open>str\<close> that UTF-8 can encode. The specification's
  description of the output: the payloads of the code cells, in their original order,
  each followed by two newline characters.
\<close>

definition is_code :: "cell \<Rightarrow> bool" where
  "is_code c = (cell_type c = Some (Str (str_of ''code'')))"

definition payload :: "cell \<Rightarrow> string option" where
  "payload c = (case source c of Some (Str s) \<Rightarrow> utf8_encode s | _ \<Rightarrow> None)"

definition code_text :: "cell list \<Rightarrow> string" where
  "code_text cs =
     concat (map (\<lambda>c. case payload c of None \<Rightarrow> [] | Some bs \<Rightarrow> bs @ ''\<newline>\<newline>'')
                 (filter is_code cs))"

subsection \<open>Notions used to state the properties\<close>

text \<open>
  A cell that the loop gets past: it has a type tag, and if it is a code cell its source
  is a \<open>str\<close> that UTF-8 can encode.
\<close>

definition writable :: "cell \<Rightarrow> bool" where
  "writable c = (cell_type c \<noteq> None \<and> (if is_code c then payload c \<noteq> None else True))"

text \<open>
  Lower-casing of an ASCII letter, to say that a file name ends in an upper-case or
  mixed-case spelling of the extension.
\<close>

definition ascii_lower :: "char \<Rightarrow> char" where
  "ascii_lower c =
     (if (65::nat) \<le> of_char c \<and> of_char c \<le> (90::nat)
      then char_of (of_char c + (32::nat)) else c)"

text \<open>The file name of a path: what follows its last \<open>/\<close>.\<close>

definition file_name :: "string \<Rightarrow> string" where
  "file_name p = rev (takeWhile (\<lambda>c. c \<noteq> CHR ''/'') (rev p))"

text \<open>
  Example notebooks: the one of the specification's concrete scenario; one with a
  markdown cell only; one whose second code cell holds a lone surrogate; one whose
  second code cell has no source; one with a single cell that has no type tag; one with
  a single code cell that holds a lone surrogate. Then a reader that knows them by the
  text of their files, and a world that holds these files, some next to an older file
  at the output path, and a file that is not a notebook.
\<close>

definition text_cell :: "string \<Rightarrow> string \<Rightarrow> cell" where
  "text_cell t s = \<lparr>cell_type = Some (Str (str_of t)), source = Some (Str (str_of s))\<rparr>"

definition scenario_cells :: "cell list" where
  "scenario_cells =
     [text_cell ''markdown'' ''# Title'', text_cell ''code'' ''x = 1'',
      text_cell ''code'' ''y = 2'']"

definition prose_cells :: "cell list" where
  "prose_cells = [text_cell ''markdown'' ''# Title'']"

definition surrogate_cells :: "cell list" where
  "surrogate_cells =
     [text_cell ''code'' ''a'',
      \<lparr>cell_type = Some (Str (str_of ''code'')), source = Some (Str [0x78, 0xD800])\<rparr>,
      text_cell ''code'' ''b'']"

definition no_source_cells :: "cell list" where
  "no_source_cells =
     [text_cell ''code'' ''a'',
      \<lparr>cell_type = Some (Str (str_of ''code'')), source = None\<rparr>,
      text_cell ''code'' ''b'']"

definition untagged_cells :: "cell list" where
  "untagged_cells = [\<lparr>cell_type = None, source = Some (Str (str_of ''hello''))\<rparr>]"

definition lone_cells :: "cell list" where
  "lone_cells =
     [\<lparr>cell_type = Some (Str (str_of ''code'')), source = Some (Str [0x78, 0xD800])\<rparr>]"

definition scenario_nbread :: "string \<Rightarrow> notebook option" where
  "scenario_nbread t =
     (if t = ''{scenario}'' then Some \<lparr>cells = scenario_cells\<rparr>
      else if t = ''{prose}'' then Some \<lparr>cells = prose_cells\<rparr>
      else if t = ''{surrogate}'' then Some \<lparr>cells = surrogate_cells\<rparr>
      else if t = ''{no source}'' then Some \<lparr>cells = no_source_cells\<rparr>
      else if t = ''{untagged}'' then Some \<lparr>cells = untagged_cells\<rparr>
      else if t = ''{lone}'' then Some \<lparr>cells = lone_cells\<rparr>
      else None)"

definition scenario_world :: world where
  "scenario_world =
     \<lparr>files = [''nb.ipynb'' \<mapsto> ''{scenario}'', ''nb.jl'' \<mapsto> ''old text'',
               ''prose.ipynb'' \<mapsto> ''{prose}'',
               ''bad.ipynb'' \<mapsto> ''not a notebook'', ''bad.jl'' \<mapsto> ''kept'',
               ''s.ipynb'' \<mapsto> ''{surrogate}'',
               ''m.ipynb'' \<mapsto> ''{no source}'', ''m.jl'' \<mapsto> ''kept'',
               ''u.ipynb'' \<mapsto> ''{untagged}'',
               ''z.ipynb'' \<mapsto> ''{lone}'',
               ''a\<newline>b.ipynb'' \<mapsto> ''{scenario}''],
      can_write = (\<lambda>p. True),
      stdout = []\<rparr>"

section \<open>Properties\<close>

subsection \<open>Paths\<close>

lemma endswith_iff: "endswith s suf \<longleftrightarrow> (\<exists>stem. s = stem @ suf)"
proof
  assume "endswith s suf"
  then have "s = take (length s - length suf) s @ suf"
    by (metis append_take_drop_id endswith_def)
  then show "\<exists>stem. s = stem @ suf" ..
next
  assume "\<exists>stem. s = stem @ suf"
  then show "endswith s suf" by (auto simp: endswith_def)
qed

lemma rfind_from_append:
  "n \<le> length xs \<Longrightarrow> rfind_from (xs @ ys) c n = rfind_from xs c n"
  by (induction n) (auto simp: nth_append)

lemma rfind_from_absent:
  "c \<notin> set xs \<Longrightarrow> n \<le> length xs \<Longrightarrow> rfind_from xs c n = - 1"
  by (induction n) auto

lemma rfind_from_skip:
  "c \<notin> set ys \<Longrightarrow> k \<le> length ys \<Longrightarrow>
     rfind_from (xs @ ys) c (length xs + k) = rfind_from (xs @ ys) c (length xs)"
  by (induction k) (auto simp: nth_append)

lemma rfind_absent: "c \<notin> set xs \<Longrightarrow> rfind xs c = - 1"
  by (simp add: rfind_def rfind_from_absent)

lemma rfind_last_occurrence:
  assumes "c \<notin> set ys"
  shows "rfind (xs @ c # ys) c = int (length xs)"
proof -
  have "rfind (xs @ c # ys) c = rfind_from ((xs @ [c]) @ ys) c (length (xs @ [c]) + length ys)"
    by (simp add: rfind_def)
  also have "\<dots> = rfind_from ((xs @ [c]) @ ys) c (length (xs @ [c]))"
    using assms by (intro rfind_from_skip) auto
  also have "\<dots> = int (length xs)"
    by (simp add: nth_append)
  finally show ?thesis .
qed

lemma skip_leading_dots_eq:
  "skip_leading_dots p e f k =
     (if \<exists>i. f \<le> i \<and> i < k \<and> p ! nat i \<noteq> e
      then Some (take (nat k) p, drop (nat k) p) else None)"
proof (induction p e f k rule: skip_leading_dots.induct)
  case (1 p e f k)
  show ?case
  proof (cases "f < k")
    case False
    then show ?thesis by (simp add: skip_leading_dots.simps [of p e f k])
  next
    case lt: True
    show ?thesis
    proof (cases "p ! nat f \<noteq> e")
      case True
      then have "\<exists>i. f \<le> i \<and> i < k \<and> p ! nat i \<noteq> e" using lt by auto
      then show ?thesis using lt True by (simp add: skip_leading_dots.simps [of p e f k])
    next
      case False
      have "(\<exists>i. f \<le> i \<and> i < k \<and> p ! nat i \<noteq> e) \<longleftrightarrow> (\<exists>i. f + 1 \<le> i \<and> i < k \<and> p ! nat i \<noteq> e)"
      proof
        assume "\<exists>i. f \<le> i \<and> i < k \<and> p ! nat i \<noteq> e"
        then obtain i where i: "f \<le> i" "i < k" "p ! nat i \<noteq> e" by blast
        then have "i \<noteq> f" using False by auto
        then show "\<exists>i. f + 1 \<le> i \<and> i < k \<and> p ! nat i \<noteq> e"
          using i by (intro exI [of _ i]) auto
      next
        assume "\<exists>i. f + 1 \<le> i \<and> i < k \<and> p ! nat i \<noteq> e"
        then obtain i where "f + 1 \<le> i" "i < k" "p ! nat i \<noteq> e" by blast
        then show "\<exists>i. f \<le> i \<and> i < k \<and> p ! nat i \<noteq> e"
          by (intro exI [of _ i]) auto
      qed
      then show ?thesis
        using lt False "1.IH" by (simp add: skip_leading_dots.simps [of p e f k])
    qed
  qed
qed

lemma dots_in_component:
  "(\<exists>i. int (length d) \<le> i \<and> i < int (length d + length b) \<and> (d @ b @ r) ! nat i \<noteq> e)
     \<longleftrightarrow> (\<exists>c\<in>set b. c \<noteq> e)"
proof
  assume "\<exists>i. int (length d) \<le> i \<and> i < int (length d + length b) \<and> (d @ b @ r) ! nat i \<noteq> e"
  then obtain i where i: "int (length d) \<le> i" "i < int (length d + length b)"
    "(d @ b @ r) ! nat i \<noteq> e" by blast
  then have "nat i - length d < length b" "(d @ b @ r) ! nat i = b ! (nat i - length d)"
    by (auto simp: nth_append)
  then show "\<exists>c\<in>set b. c \<noteq> e" using i(3) by (metis nth_mem)
next
  assume "\<exists>c\<in>set b. c \<noteq> e"
  then obtain j where j: "j < length b" "b ! j \<noteq> e" by (metis in_set_conv_nth)
  have "nat (int (length d + j)) = length d + j" by (rule nat_int)
  then have "(d @ b @ r) ! nat (int (length d + j)) \<noteq> e"
    using j by (simp only: nth_append_length_plus) (simp add: nth_append)
  then show "\<exists>i. int (length d) \<le> i \<and> i < int (length d + length b) \<and> (d @ b @ r) ! nat i \<noteq> e"
    using j(1) by (intro exI [of _ "int (length d + j)"]) auto
qed

lemma splitext_component:
  assumes b: "CHR ''/'' \<notin> set b" "CHR ''.'' \<notin> set ext" "CHR ''/'' \<notin> set ext"
    and d: "d = [] \<or> last d = CHR ''/''"
  shows "splitext (d @ b @ CHR ''.'' # ext) =
           (if \<exists>c\<in>set b. c \<noteq> CHR ''.'' then (d @ b, CHR ''.'' # ext)
            else (d @ b @ CHR ''.'' # ext, []))"
proof -
  let ?p = "d @ b @ CHR ''.'' # ext"
  have dot: "rfind ?p (CHR ''.'') = int (length d + length b)"
    using rfind_last_occurrence [of "CHR ''.''" ext "d @ b"] b by simp
  have sep: "rfind ?p (CHR ''/'') + 1 = int (length d)"
  proof (cases "d = []")
    case True
    then show ?thesis using b by (simp add: rfind_absent)
  next
    case False
    with d obtain d' where d': "d = d' @ [CHR ''/'']"
      by (metis append_butlast_last_id)
    have "CHR ''/'' \<notin> set (b @ CHR ''.'' # ext)" using b by simp
    then have "rfind (d' @ CHR ''/'' # (b @ CHR ''.'' # ext)) (CHR ''/'') = int (length d')"
      by (rule rfind_last_occurrence)
    then show ?thesis by (simp add: d')
  qed
  have lt: "rfind ?p (CHR ''.'') > rfind ?p (CHR ''/'')"
    using dot sep by linarith
  have loop: "skip_leading_dots ?p (CHR ''.'') (int (length d)) (int (length d + length b)) =
                (if \<exists>c\<in>set b. c \<noteq> CHR ''.'' then Some (d @ b, CHR ''.'' # ext) else None)"
  proof -
    have "take (length d + length b) ?p = d @ b" "drop (length d + length b) ?p = CHR ''.'' # ext"
      by simp_all
    then show ?thesis
      by (simp only: skip_leading_dots_eq dots_in_component nat_int)
  qed
  have "splitext ?p =
          (case skip_leading_dots ?p (CHR ''.'') (rfind ?p (CHR ''/'') + 1) (rfind ?p (CHR ''.'')) of
             Some r \<Rightarrow> r | None \<Rightarrow> (?p, []))"
    using lt by (simp add: splitext_def genericpath_splitext_def)
  also have "\<dots> = (if \<exists>c\<in>set b. c \<noteq> CHR ''.'' then (d @ b, CHR ''.'' # ext) else (?p, []))"
    by (simp only: sep dot loop) simp
  finally show ?thesis .
qed

lemma endswith_same_length:
  "length e = length suf \<Longrightarrow> endswith (stem @ e) suf \<longleftrightarrow> e = suf"
  by (simp add: endswith_def)

lemma output_path_differs:
  assumes "endswith p ''.ipynb''"
  shows "output_path_of p \<noteq> p"
proof
  assume eq: "output_path_of p = p"
  from assms obtain stem where "p = stem @ ''.ipynb''"
    by (auto simp: endswith_iff)
  then have "last p = CHR ''b''" by simp
  moreover have "last (output_path_of p) = CHR ''l''"
    by (simp add: output_path_of_def)
  ultimately show False using eq by simp
qed

lemma stem_split:
  "\<exists>d. stem = d @ file_name stem \<and> CHR ''/'' \<notin> set (file_name stem) \<and>
       (d = [] \<or> last d = CHR ''/'')"
proof -
  let ?P = "\<lambda>c. c \<noteq> CHR ''/''"
  let ?d = "rev (dropWhile ?P (rev stem))"
  have "rev (takeWhile ?P (rev stem) @ dropWhile ?P (rev stem)) = stem"
    by (simp only: takeWhile_dropWhile_id rev_rev_ident)
  then have 1: "stem = ?d @ file_name stem"
    by (simp only: rev_append file_name_def)
  have 2: "CHR ''/'' \<notin> set (file_name stem)"
    by (auto simp: file_name_def dest: set_takeWhileD)
  have 3: "?d = [] \<or> last ?d = CHR ''/''"
  proof (cases "dropWhile ?P (rev stem)")
    case Nil
    then show ?thesis by simp
  next
    case (Cons x xs)
    have "x \<in> set (dropWhile ?P (rev stem))" "dropWhile ?P (rev stem) \<noteq> []"
      unfolding Cons by simp_all
    from hd_dropWhile [OF this(2)] have "\<not> ?P x"
      unfolding Cons by simp
    then show ?thesis unfolding Cons by (simp add: last_rev)
  qed
  from 1 2 3 show ?thesis by blast
qed


lemma output_path_of_stem:
  "output_path_of (stem @ ''.ipynb'') =
     (if \<exists>c\<in>set (file_name stem). c \<noteq> CHR ''.'' then stem @ ''.jl''
      else stem @ ''.ipynb.jl'')"
proof -
  define b where "b = file_name stem"
  obtain d where d: "stem = d @ b" "CHR ''/'' \<notin> set b" "d = [] \<or> last d = CHR ''/''"
    unfolding b_def using stem_split by blast
  have "splitext (d @ b @ CHR ''.'' # ''ipynb'') =
          (if \<exists>c\<in>set b. c \<noteq> CHR ''.'' then (d @ b, CHR ''.'' # ''ipynb'')
           else (d @ b @ CHR ''.'' # ''ipynb'', []))"
    using d(2,3) by (intro splitext_component) simp_all
  then have "splitext (stem @ ''.ipynb'') =
          (if \<exists>c\<in>set b. c \<noteq> CHR ''.'' then (stem, ''.ipynb'')
           else (stem @ ''.ipynb'', []))"
    by (simp add: d(1))
  then show ?thesis by (simp add: output_path_of_def b_def)
qed

lemma splitext_within: "set (fst (splitext p)) \<subseteq> set p"
proof -
  have "fst (splitext p) = p \<or> (\<exists>n. fst (splitext p) = take n p)"
    by (auto simp: splitext_def genericpath_splitext_def Let_def skip_leading_dots_eq)
  then show ?thesis by (auto dest: in_set_takeD)
qed

subsection \<open>The loop over the cells\<close>

lemma utf8_encode_append:
  "utf8_encode (xs @ ys) =
     (case utf8_encode xs of
        None \<Rightarrow> None
      | Some a \<Rightarrow> (case utf8_encode ys of None \<Rightarrow> None | Some b \<Rightarrow> Some (a @ b)))"
  by (induction xs) (auto split: option.splits)

lemma utf8_encode_separator: "utf8_encode (str_of ''\<newline>\<newline>'') = Some ''\<newline>\<newline>''"
  by code_simp

lemma f_write_source:
  "f_write (s @ str_of ''\<newline>\<newline>'') f =
     (case utf8_encode s of
        None \<Rightarrow> Inl UnicodeEncodeError
      | Some bs \<Rightarrow> Inr (f @ bs @ ''\<newline>\<newline>''))"
  by (simp add: f_write_def utf8_encode_append utf8_encode_separator split: option.splits)

lemma code_text_Nil: "code_text [] = []"
  by (simp add: code_text_def)

lemma code_text_append: "code_text (xs @ ys) = code_text xs @ code_text ys"
  by (simp add: code_text_def)

lemma code_text_not_code: "\<not> is_code c \<Longrightarrow> code_text (c # cs) = code_text cs"
  by (simp add: code_text_def)

lemma code_text_code:
  "is_code c \<Longrightarrow> payload c = Some bs \<Longrightarrow>
     code_text (c # cs) = bs @ ''\<newline>\<newline>'' @ code_text cs"
  by (simp add: code_text_def)


lemma write_cells_step_code:
  assumes "cell_type c = Some (Str (str_of ''code''))" and "source c = Some (Str s)"
    and "utf8_encode s = Some bs"
  shows "write_cells (c # rest) f = write_cells rest (f @ bs @ ''\<newline>\<newline>'')"
  using assms by (simp add: f_write_source)

lemma write_cells_step_other:
  assumes "cell_type c = Some t" and "t \<noteq> Str (str_of ''code'')"
  shows "write_cells (c # rest) f = write_cells rest f"
  using assms by simp

lemma write_cells_step_writable:
  assumes "writable c"
  shows "write_cells (c # rest) f = write_cells rest (f @ code_text [c])"
proof (cases "is_code c")
  case True
  with assms obtain bs where p: "payload c = Some bs"
    by (auto simp: writable_def)
  then obtain s where s: "source c = Some (Str s)" "utf8_encode s = Some bs"
    by (auto simp: payload_def split: option.splits pyvalue.splits)
  from True have t: "cell_type c = Some (Str (str_of ''code''))"
    by (simp add: is_code_def)
  have "code_text [c] = bs @ ''\<newline>\<newline>''"
    using code_text_code [OF True p, of "[]"] by (simp add: code_text_Nil)
  with write_cells_step_code [OF t s] show ?thesis by simp
next
  case False
  with assms obtain t where t: "cell_type c = Some t" "t \<noteq> Str (str_of ''code'')"
    by (auto simp: writable_def is_code_def)
  have "code_text [c] = []"
    using code_text_not_code [OF False, of "[]"] by (simp add: code_text_Nil)
  with write_cells_step_other [OF t] show ?thesis by simp
qed

lemma write_cells_append:
  "\<forall>c\<in>set cs1. writable c \<Longrightarrow>
     write_cells (cs1 @ cs2) f = write_cells cs2 (f @ code_text cs1)"
proof (induction cs1 arbitrary: f)
  case Nil
  then show ?case by (simp add: code_text_Nil)
next
  case (Cons c cs1)
  then have w: "writable c" and rest: "\<forall>c\<in>set cs1. writable c" by simp_all
  have "write_cells ((c # cs1) @ cs2) f = write_cells (cs1 @ cs2) (f @ code_text [c])"
    using write_cells_step_writable [OF w] by simp
  also have "\<dots> = write_cells cs2 ((f @ code_text [c]) @ code_text cs1)"
    by (rule Cons.IH [OF rest])
  also have "(f @ code_text [c]) @ code_text cs1 = f @ code_text (c # cs1)"
    using code_text_append [of "[c]" cs1] by simp
  finally show ?case .
qed

lemma write_cells_writable:
  "\<forall>c\<in>set cs. writable c \<Longrightarrow> write_cells cs f = (Inr (), f @ code_text cs)"
  using write_cells_append [of cs "[]" f] by simp

lemma write_cells_from:
  "write_cells cs f = (fst (write_cells cs []), f @ snd (write_cells cs []))"
proof (induction cs arbitrary: f)
  case Nil
  then show ?case by simp
next
  case (Cons c cs)
  show ?case
  proof (cases "cell_type c")
    case None
    then show ?thesis by simp
  next
    case (Some t)
    show ?thesis
    proof (cases "t = Str (str_of ''code'')")
      case False
      with Some Cons.IH [of f] show ?thesis by simp
    next
      case True
      show ?thesis
      proof (cases "source c")
        case None
        with Some True show ?thesis by simp
      next
        case src: (Some v)
        show ?thesis
        proof (cases v)
          case Other
          with Some True src show ?thesis by simp
        next
          case (Str s)
          show ?thesis
          proof (cases "utf8_encode s")
            case None
            with Some True src Str show ?thesis by (simp add: f_write_source)
          next
            case enc: (Some bs)
            have 1: "write_cells (c # cs) g = write_cells cs (g @ bs @ ''\<newline>\<newline>'')" for g
              using Some True src Str enc by (simp add: f_write_source)
            from Cons.IH [of "f @ bs @ ''\<newline>\<newline>''"] Cons.IH [of "bs @ ''\<newline>\<newline>''"]
            show ?thesis unfolding 1 by simp
          qed
        qed
      qed
    qed
  qed
qed

subsection \<open>Running the converter\<close>

lemma convert_run:
  assumes "files w notebook_path = Some txt" and "nbread txt = Some nb"
    and "can_write w output_path"
  shows "convert_notebook_to_julia nbread notebook_path output_path w =
           (fst (write_cells (cells nb) []),
            w\<lparr>files := (files w)(output_path \<mapsto> snd (write_cells (cells nb) []))\<rparr>)"
  using assms
  by (simp add: convert_notebook_to_julia_def open_w_def f_close_def split: prod.splits)

lemma convert_ok:
  assumes "files w notebook_path = Some txt" and "nbread txt = Some nb"
    and "can_write w output_path" and "\<forall>c\<in>set (cells nb). writable c"
  shows "convert_notebook_to_julia nbread notebook_path output_path w =
           (Inr (), w\<lparr>files := (files w)(output_path \<mapsto> code_text (cells nb))\<rparr>)"
  using convert_run [where nbread = nbread, OF assms(1,2,3)]
    write_cells_writable [OF assms(4), of "[]"]
  by simp

lemma convert_read_failure:
  assumes "files w notebook_path = None \<or>
           (\<exists>t. files w notebook_path = Some t \<and> nbread t = None)"
  shows "convert_notebook_to_julia nbread notebook_path output_path w =
           (Inl (if files w notebook_path = None then OSError notebook_path else ReadError), w)"
  using assms by (auto simp: convert_notebook_to_julia_def)

lemma convert_cases:
  assumes "convert_notebook_to_julia nbread notebook_path output_path w = (r, w')"
  shows "(\<exists>e. r = Inl e \<and> w' = w) \<or>
         (\<exists>t nb. files w notebook_path = Some t \<and> nbread t = Some nb \<and>
            can_write w output_path \<and> r = fst (write_cells (cells nb) []) \<and>
            w' = w\<lparr>files := (files w)(output_path \<mapsto> snd (write_cells (cells nb) []))\<rparr>)"
proof (cases "files w notebook_path")
  case None
  then show ?thesis using assms by (auto simp: convert_notebook_to_julia_def)
next
  case (Some t)
  show ?thesis
  proof (cases "nbread t")
    case None
    then show ?thesis using assms Some by (auto simp: convert_notebook_to_julia_def)
  next
    case nb: (Some nb)
    show ?thesis
    proof (cases "can_write w output_path")
      case True
      from convert_run [where nbread = nbread, OF Some nb True] assms show ?thesis
        using Some nb True by auto
    next
      case False
      then show ?thesis
        using assms Some nb by (auto simp: convert_notebook_to_julia_def open_w_def)
    qed
  qed
qed

lemma main_run:
  assumes "endswith p ''.ipynb''" and "files w p = Some txt" and "nbread txt = Some nb"
    and "can_write w (output_path_of p)"
  shows "main nbread p w =
           (case fst (write_cells (cells nb) []) of
              Inl e \<Rightarrow>
                (Inl e,
                 w\<lparr>files := (files w)(output_path_of p \<mapsto> snd (write_cells (cells nb) []))\<rparr>)
            | Inr u \<Rightarrow>
                (Inr (),
                 w\<lparr>files := (files w)(output_path_of p \<mapsto> snd (write_cells (cells nb) [])),
                    stdout := stdout w @ ''Converted '' @ p @ '' to '' @ output_path_of p
                                @ ''\<newline>''\<rparr>))"
  using assms(1) convert_run [where nbread = nbread, OF assms(2,3,4)]
  by (simp add: main_def print_def Let_def split: sum.splits)

lemma main_ok:
  assumes "endswith p ''.ipynb''" and "files w p = Some txt" and "nbread txt = Some nb"
    and "can_write w (output_path_of p)" and "\<forall>c\<in>set (cells nb). writable c"
  shows "main nbread p w =
           (Inr (), w\<lparr>files := (files w)(output_path_of p \<mapsto> code_text (cells nb)),
                       stdout := stdout w @ ''Converted '' @ p @ '' to '' @ output_path_of p
                                   @ ''\<newline>''\<rparr>)"
  using main_run [where nbread = nbread, OF assms(1,2,3,4)]
    write_cells_writable [OF assms(5), of "[]"]
  by simp

lemma main_success:
  assumes "main nbread p w = (Inr u, w')"
  shows "endswith p ''.ipynb'' \<and>
         (\<exists>content.
            w' = w\<lparr>files := (files w)(output_path_of p \<mapsto> content),
                    stdout := stdout w @ ''Converted '' @ p @ '' to '' @ output_path_of p
                                @ ''\<newline>''\<rparr>)"
proof -
  have e: "endswith p ''.ipynb''"
    using assms by (auto simp: main_def split: if_splits)
  obtain r w1 where c: "convert_notebook_to_julia nbread p (output_path_of p) w = (r, w1)"
    by (cases "convert_notebook_to_julia nbread p (output_path_of p) w")
  have r: "r = Inr ()"
    using assms e c by (cases r) (simp_all add: main_def Let_def)
  with convert_cases [OF c] obtain content where
    w1: "w1 = w\<lparr>files := (files w)(output_path_of p \<mapsto> content)\<rparr>"
    by auto
  have "w' = print (''Converted '' @ p @ '' to '' @ output_path_of p) w1"
    using assms e c r by (simp add: main_def Let_def)
  then have "w' = w\<lparr>files := (files w)(output_path_of p \<mapsto> content),
                    stdout := stdout w @ ''Converted '' @ p @ '' to '' @ output_path_of p
                                @ ''\<newline>''\<rparr>"
    by (simp add: w1 print_def)
  with e show ?thesis by blast
qed

lemma main_wrong_extension:
  "\<not> endswith p ''.ipynb'' \<Longrightarrow>
     main nbread p w = (Inl (ValueError ''Input file must have a .ipynb extension''), w)"
  by (simp add: main_def)

lemma output_path_chars: "set (output_path_of p) \<subseteq> set p \<union> set ''.jl''"
  using splitext_within [of p] by (auto simp: output_path_of_def)

subsection \<open>The example notebooks\<close>

lemma scenario_paths:
  "output_path_of ''nb.ipynb'' = ''nb.jl''"
  "output_path_of ''prose.ipynb'' = ''prose.jl''"
  "output_path_of ''bad.ipynb'' = ''bad.jl''"
  "endswith ''nb.ipynb'' ''.ipynb''"
  "endswith ''prose.ipynb'' ''.ipynb''"
  "endswith ''bad.ipynb'' ''.ipynb''"
  "endswith ''a\<newline>b.ipynb'' ''.ipynb''"
  "output_path_of ''a\<newline>b.ipynb'' = ''a\<newline>b.jl''"
  by code_simp+

lemmas loop_eval = text_cell_def f_write_def str_of_def utf8_char_def char_of_def bit_0

lemma scenario_loops:
  "write_cells scenario_cells [] = (Inr (), ''x = 1\<newline>\<newline>y = 2\<newline>\<newline>'')"
  "write_cells prose_cells [] = (Inr (), [])"
  "write_cells surrogate_cells [] = (Inl UnicodeEncodeError, ''a\<newline>\<newline>'')"
  "write_cells no_source_cells [] = (Inl (AttributeError ''source''), ''a\<newline>\<newline>'')"
  "write_cells untagged_cells [] = (Inl (AttributeError ''cell_type''), [])"
  "write_cells lone_cells [] = (Inl UnicodeEncodeError, [])"
  by (simp_all add: scenario_cells_def prose_cells_def surrogate_cells_def no_source_cells_def
        untagged_cells_def lone_cells_def loop_eval)

lemma scenario_writable:
  "\<forall>c\<in>set scenario_cells. writable c"
  "\<forall>c\<in>set prose_cells. writable c"
  by (simp_all add: scenario_cells_def prose_cells_def writable_def is_code_def payload_def
        loop_eval)

lemma scenario_code_text:
  "code_text scenario_cells = ''x = 1\<newline>\<newline>y = 2\<newline>\<newline>''"
  "code_text prose_cells = []"
  by (simp_all add: scenario_cells_def prose_cells_def code_text_def is_code_def payload_def
        loop_eval)

lemma scenario_files:
  "files scenario_world ''nb.ipynb'' = Some ''{scenario}''"
  "files scenario_world ''nb.jl'' = Some ''old text''"
  "files scenario_world ''prose.ipynb'' = Some ''{prose}''"
  "files scenario_world ''bad.ipynb'' = Some ''not a notebook''"
  "files scenario_world ''bad.jl'' = Some ''kept''"
  "files scenario_world ''s.ipynb'' = Some ''{surrogate}''"
  "files scenario_world ''m.ipynb'' = Some ''{no source}''"
  "files scenario_world ''m.jl'' = Some ''kept''"
  "files scenario_world ''u.ipynb'' = Some ''{untagged}''"
  "files scenario_world ''z.ipynb'' = Some ''{lone}''"
  "files scenario_world ''a\<newline>b.ipynb'' = Some ''{scenario}''"
  "can_write scenario_world q"
  "stdout scenario_world = []"
  by (simp_all add: scenario_world_def)

lemma scenario_reads:
  "scenario_nbread ''{scenario}'' = Some \<lparr>cells = scenario_cells\<rparr>"
  "scenario_nbread ''{prose}'' = Some \<lparr>cells = prose_cells\<rparr>"
  "scenario_nbread ''{surrogate}'' = Some \<lparr>cells = surrogate_cells\<rparr>"
  "scenario_nbread ''{no source}'' = Some \<lparr>cells = no_source_cells\<rparr>"
  "scenario_nbread ''{untagged}'' = Some \<lparr>cells = untagged_cells\<rparr>"
  "scenario_nbread ''{lone}'' = Some \<lparr>cells = lone_cells\<rparr>"
  "scenario_nbread ''not a notebook'' = None"
  by (simp_all add: scenario_nbread_def)

section \<open>The claims\<close>

text \<open>
  C1 as stated fails. The reader returns a notebook with the code cells \<open>a\<close>, then \<open>x\<close>
  followed by the lone surrogate \<open>D800\<close> (which JSON can deliver), then \<open>b\<close>. The write of
  the second source raises \<open>UnicodeEncodeError\<close>, and the output file is left holding
  \<open>a\n\n\<close> only: the payloads of the second and third code cells are not in it.
\<close>

theorem convert_surrogate_counterexample:
  "files scenario_world ''s.ipynb'' = Some ''{surrogate}'' \<and>
   scenario_nbread ''{surrogate}'' =
     Some \<lparr>cells =
       [text_cell ''code'' ''a'',
        \<lparr>cell_type = Some (Str (str_of ''code'')), source = Some (Str [0x78, 0xD800])\<rparr>,
        text_cell ''code'' ''b'']\<rparr> \<and>
   convert_notebook_to_julia scenario_nbread ''s.ipynb'' ''s.jl'' scenario_world =
     (Inl UnicodeEncodeError,
      scenario_world\<lparr>files := (files scenario_world)(''s.jl'' \<mapsto> ''a\<newline>\<newline>'')\<rparr>)"
  using convert_run [where nbread = scenario_nbread, OF scenario_files(6) scenario_reads(3)
      scenario_files(12), of "''s.jl''"]
  by (simp add: scenario_files scenario_reads scenario_loops) (simp add: surrogate_cells_def)

text \<open>
  C1, amended. When the notebook file can be read and parsed, the output path can be
  opened, every cell of the notebook has a type tag and the source of every code cell is
  a \<open>str\<close> that UTF-8 can encode, \<open>convert_notebook_to_julia\<close> returns normally and the
  output file holds the payloads of the cells whose type tag is \<open>code\<close>, in the order of
  \<open>nb.cells\<close>, each followed by two newline characters, and nothing else; every other
  file is as it was. The right-hand side is the specification's description written out
  (\<open>code_text\<close>); the left-hand side is the loop of the script.
\<close>

theorem convert_writes_code_cells:
  assumes "files w notebook_path = Some txt" and "nbread txt = Some nb"
    and "can_write w output_path"
    and "\<forall>c\<in>set (cells nb). writable c"
  shows "convert_notebook_to_julia nbread notebook_path output_path w =
           (Inr (),
            w\<lparr>files := (files w)(output_path \<mapsto>
                 concat (map (\<lambda>c. case payload c of
                                      None \<Rightarrow> []
                                    | Some bs \<Rightarrow> bs @ ''\<newline>\<newline>'')
                             (filter is_code (cells nb))))\<rparr>)"
  using convert_ok [where nbread = nbread, OF assms] by (simp add: code_text_def)

text \<open>
  The specification's scenario: a markdown cell \<open># Title\<close> and the code cells \<open>x = 1\<close> and
  \<open>y = 2\<close> give exactly \<open>x = 1\n\ny = 2\n\n\<close>.
\<close>

theorem convert_writes_code_cells_witness:
  "files scenario_world ''nb.ipynb'' = Some ''{scenario}'' \<and>
   scenario_nbread ''{scenario}'' =
     Some \<lparr>cells = [text_cell ''markdown'' ''# Title'', text_cell ''code'' ''x = 1'',
                     text_cell ''code'' ''y = 2'']\<rparr> \<and>
   can_write scenario_world ''nb.jl'' \<and>
   convert_notebook_to_julia scenario_nbread ''nb.ipynb'' ''nb.jl'' scenario_world =
     (Inr (),
      scenario_world\<lparr>files := (files scenario_world)(''nb.jl'' \<mapsto>
        ''x = 1\<newline>\<newline>y = 2\<newline>\<newline>'')\<rparr>)"
proof -
  have w: "\<forall>c\<in>set (cells \<lparr>cells = scenario_cells\<rparr>). writable c"
    using scenario_writable(1) by simp
  have "concat (map (\<lambda>c. case payload c of None \<Rightarrow> [] | Some bs \<Rightarrow> bs @ ''\<newline>\<newline>'')
                    (filter is_code (cells \<lparr>cells = scenario_cells\<rparr>))) =
          ''x = 1\<newline>\<newline>y = 2\<newline>\<newline>''"
    using scenario_code_text(1) by (simp add: code_text_def)
  with convert_writes_code_cells [where nbread = scenario_nbread,
      OF scenario_files(1) scenario_reads(1) scenario_files(12) w, of "''nb.jl''"]
  have "convert_notebook_to_julia scenario_nbread ''nb.ipynb'' ''nb.jl'' scenario_world =
     (Inr (),
      scenario_world\<lparr>files := (files scenario_world)(''nb.jl'' \<mapsto>
        ''x = 1\<newline>\<newline>y = 2\<newline>\<newline>'')\<rparr>)"
    by simp
  moreover have "scenario_nbread ''{scenario}'' =
     Some \<lparr>cells = [text_cell ''markdown'' ''# Title'', text_cell ''code'' ''x = 1'',
                     text_cell ''code'' ''y = 2'']\<rparr>"
    using scenario_reads(1) by (simp add: scenario_cells_def)
  ultimately show ?thesis
    using scenario_files(1) scenario_files(12) by blast
qed

text \<open>
  C2 as stated fails: the path \<open>.ipynb\<close> ends in \<open>.ipynb\<close> and is that extension after the
  empty stem, yet the output path is not the empty stem followed by \<open>.jl\<close>
  (it is \<open>.ipynb.jl\<close>): \<open>os.path.splitext\<close> does not take a leading dot of a file name for
  the start of an extension.
\<close>

theorem output_path_dotfile_counterexample:
  "endswith ''.ipynb'' ''.ipynb'' \<and> ''.ipynb'' = [] @ ''.ipynb'' \<and>
   output_path_of ''.ipynb'' \<noteq> [] @ ''.jl''"
  by code_simp

text \<open>
  C2, amended. Let \<open>p\<close> end in \<open>.ipynb\<close> and let \<open>stem\<close> be \<open>p\<close> without these six characters.
  If the file name of \<open>stem\<close> (what follows its last \<open>/\<close>) has a character other than a
  dot, the output path is \<open>stem\<close> followed by \<open>.jl\<close>, the extension replaced and the rest
  unchanged. Otherwise (the file name of \<open>p\<close> is dots followed by \<open>ipynb\<close>) the output path
  is the whole of \<open>p\<close> followed by \<open>.jl\<close>.
\<close>

theorem output_path_replaces_extension:
  assumes "endswith p ''.ipynb''" and "stem = take (length p - length ''.ipynb'') p"
  shows "p = stem @ ''.ipynb'' \<and>
         output_path_of p =
           (if \<exists>c\<in>set (file_name stem). c \<noteq> CHR ''.'' then stem @ ''.jl''
            else p @ ''.jl'')"
proof -
  from assms(1) obtain s where s: "p = s @ ''.ipynb''"
    by (auto simp: endswith_iff)
  then have "stem = s" using assms(2) by simp
  with s output_path_of_stem [of s] show ?thesis by simp
qed

theorem output_path_replaces_extension_witness:
  "endswith ''lab.v2/run.1.ipynb'' ''.ipynb'' \<and>
   ''lab.v2/run.1'' =
     take (length ''lab.v2/run.1.ipynb'' - length ''.ipynb'') ''lab.v2/run.1.ipynb'' \<and>
   output_path_of ''lab.v2/run.1.ipynb'' = ''lab.v2/run.1.jl''"
proof -
  have a: "endswith ''lab.v2/run.1.ipynb'' ''.ipynb''"
    by code_simp
  have b: "''lab.v2/run.1'' =
             take (length ''lab.v2/run.1.ipynb'' - length ''.ipynb'') ''lab.v2/run.1.ipynb''"
    by code_simp
  have c: "\<exists>c\<in>set (file_name ''lab.v2/run.1''). c \<noteq> CHR ''.''"
    by code_simp
  have "output_path_of ''lab.v2/run.1.ipynb'' =
          (if \<exists>c\<in>set (file_name ''lab.v2/run.1''). c \<noteq> CHR ''.''
           then ''lab.v2/run.1'' @ ''.jl'' else ''lab.v2/run.1.ipynb'' @ ''.jl'')"
    by (rule conjunct2 [OF output_path_replaces_extension [OF a b]])
  then have "output_path_of ''lab.v2/run.1.ipynb'' = ''lab.v2/run.1'' @ ''.jl''"
    by (simp only: c if_True)
  then have "output_path_of ''lab.v2/run.1.ipynb'' = ''lab.v2/run.1.jl''"
    by simp
  with a b show ?thesis by (intro conjI)
qed

text \<open>
  C3. For a path that does not end in \<open>.ipynb\<close>, \<open>main\<close> raises its \<open>ValueError\<close> (the
  specification's \<open>InvalidInputError\<close>), whose message contains \<open>.ipynb\<close>, and the world is
  left as it was whatever it holds: no file is read, created or changed and nothing is
  printed.
\<close>

theorem wrong_extension_rejected:
  assumes "\<not> endswith p ''.ipynb''"
  shows "main nbread p w =
           (Inl (ValueError ''Input file must have a .ipynb extension''), w) \<and>
         sublist ''.ipynb'' ''Input file must have a .ipynb extension''"
proof -
  have "''Input file must have a .ipynb extension'' =
          ''Input file must have a '' @ ''.ipynb'' @ '' extension''"
    by simp
  then have "sublist ''.ipynb'' ''Input file must have a .ipynb extension''"
    by (simp only: sublist_appendI)
  with assms show ?thesis by (simp add: main_wrong_extension)
qed

theorem wrong_extension_rejected_witness:
  "\<not> endswith ''notes.txt'' ''.ipynb'' \<and>
   main scenario_nbread ''notes.txt'' scenario_world =
     (Inl (ValueError ''Input file must have a .ipynb extension''), scenario_world)"
proof -
  have h: "\<not> endswith ''notes.txt'' ''.ipynb''"
    by code_simp
  from wrong_extension_rejected [OF h, of scenario_nbread scenario_world] h
  show ?thesis by simp
qed

text \<open>
  C4 as stated fails. A code cell whose payload is \<open>x\<close> followed by the lone surrogate
  \<open>D800\<close> is not written at all: \<open>f.write\<close> raises \<open>UnicodeEncodeError\<close> and the output file
  is left empty, with neither the payload nor the separator in it.
\<close>

theorem payload_surrogate_counterexample:
  "files scenario_world ''z.ipynb'' = Some ''{lone}'' \<and>
   scenario_nbread ''{lone}'' =
     Some \<lparr>cells =
       [\<lparr>cell_type = Some (Str (str_of ''code'')), source = Some (Str [0x78, 0xD800])\<rparr>]\<rparr> \<and>
   convert_notebook_to_julia scenario_nbread ''z.ipynb'' ''z.jl'' scenario_world =
     (Inl UnicodeEncodeError,
      scenario_world\<lparr>files := (files scenario_world)(''z.jl'' \<mapsto> [])\<rparr>)"
  using convert_run [where nbread = scenario_nbread, OF scenario_files(10) scenario_reads(6)
      scenario_files(12), of "''z.jl''"]
  by (simp add: scenario_files scenario_reads scenario_loops) (simp add: lone_cells_def)

text \<open>
  C4, amended. Let \<open>c\<close> be a code cell whose source is a \<open>str\<close> that UTF-8 can encode, with
  bytes \<open>bs\<close> (any characters but surrogates: newlines, quotes, backslashes, control and
  non-ASCII characters included), and let the loop get past every cell before \<open>c\<close>. Then
  the output file holds the text of the code cells before \<open>c\<close>, then \<open>bs\<close> unchanged, then
  two newline characters, then what the loop writes for the cells after \<open>c\<close>; and when
  the loop gets past those too, the conversion returns normally and what follows is the
  text of their code cells.
\<close>

theorem code_payload_verbatim:
  assumes "files w notebook_path = Some txt" and "nbread txt = Some nb"
    and "can_write w output_path"
    and "cells nb = cs1 @ c # cs2" and "\<forall>c'\<in>set cs1. writable c'"
    and "is_code c" and "source c = Some (Str s)" and "utf8_encode s = Some bs"
  shows "convert_notebook_to_julia nbread notebook_path output_path w =
           (fst (write_cells cs2 []),
            w\<lparr>files := (files w)(output_path \<mapsto>
                 code_text cs1 @ bs @ ''\<newline>\<newline>'' @ snd (write_cells cs2 []))\<rparr>) \<and>
         ((\<forall>c'\<in>set cs2. writable c') \<longrightarrow>
            write_cells cs2 [] = (Inr (), code_text cs2))"
proof -
  have t: "cell_type c = Some (Str (str_of ''code''))"
    using assms(6) by (simp add: is_code_def)
  have "write_cells (cells nb) [] = write_cells (c # cs2) ([] @ code_text cs1)"
    unfolding assms(4) by (rule write_cells_append [OF assms(5)])
  also have "\<dots> = write_cells cs2 (code_text cs1 @ bs @ ''\<newline>\<newline>'')"
    using write_cells_step_code [OF t assms(7,8)] by simp
  also have "\<dots> = (fst (write_cells cs2 []),
                    (code_text cs1 @ bs @ ''\<newline>\<newline>'') @ snd (write_cells cs2 []))"
    by (rule write_cells_from)
  finally have "write_cells (cells nb) [] =
                  (fst (write_cells cs2 []),
                   code_text cs1 @ bs @ ''\<newline>\<newline>'' @ snd (write_cells cs2 []))"
    by simp
  with convert_run [where nbread = nbread, OF assms(1,2,3)]
  have 1: "convert_notebook_to_julia nbread notebook_path output_path w =
           (fst (write_cells cs2 []),
            w\<lparr>files := (files w)(output_path \<mapsto>
                 code_text cs1 @ bs @ ''\<newline>\<newline>'' @ snd (write_cells cs2 []))\<rparr>)"
    by simp
  have 2: "write_cells cs2 [] = (Inr (), code_text cs2)" if "\<forall>c'\<in>set cs2. writable c'"
    using write_cells_writable [OF that, of "[]"] by simp
  from 1 2 show ?thesis by blast
qed

text \<open>
  A source with a double quote, a backslash, a newline, a tab, a two-byte and a four-byte
  character, between a code cell and a raw cell.
\<close>

theorem code_payload_verbatim_witness:
  "convert_notebook_to_julia
     (\<lambda>t. Some \<lparr>cells =
        [text_cell ''code'' ''a'',
         \<lparr>cell_type = Some (Str (str_of ''code'')),
          source = Some (Str [0x22, 0x5C, 0x0A, 0x09, 0xE9, 0x1F600])\<rparr>,
         text_cell ''raw'' ''b'']\<rparr>)
     ''nb.ipynb'' ''nb.jl'' scenario_world =
   (Inr (),
    scenario_world\<lparr>files := (files scenario_world)(''nb.jl'' \<mapsto>
      ''a\<newline>\<newline>'' @
      [CHR 0x22, CHR 0x5C, CHR 0x0A, CHR 0x09, CHR 0xC3, CHR 0xA9,
       CHR 0xF0, CHR 0x9F, CHR 0x98, CHR 0x80] @ ''\<newline>\<newline>'')\<rparr>)"
proof -
  define c where "c = \<lparr>cell_type = Some (Str (str_of ''code'')),
          source = Some (Str [0x22, 0x5C, 0x0A, 0x09, 0xE9, 0x1F600])\<rparr>"
  define nb where "nb = \<lparr>cells = [text_cell ''code'' ''a'', c, text_cell ''raw'' ''b'']\<rparr>"
  have h2: "(\<lambda>t::string. Some nb) ''{scenario}'' = Some nb" by simp
  have h4: "cells nb = [text_cell ''code'' ''a''] @ c # [text_cell ''raw'' ''b'']"
    by (simp add: nb_def)
  have h5: "\<forall>c'\<in>set [text_cell ''code'' ''a'']. writable c'"
    by (simp add: writable_def is_code_def payload_def loop_eval)
  have h6: "is_code c" by (simp add: c_def is_code_def)
  have h7: "source c = Some (Str [0x22, 0x5C, 0x0A, 0x09, 0xE9, 0x1F600])"
    by (simp add: c_def)
  have h8: "utf8_encode [0x22, 0x5C, 0x0A, 0x09, 0xE9, 0x1F600] =
              Some [CHR 0x22, CHR 0x5C, CHR 0x0A, CHR 0x09, CHR 0xC3, CHR 0xA9,
                    CHR 0xF0, CHR 0x9F, CHR 0x98, CHR 0x80]"
    by (simp add: utf8_char_def char_of_def bit_0)
  have h9: "\<forall>c'\<in>set [text_cell ''raw'' ''b'']. writable c'"
    by (simp add: writable_def is_code_def payload_def loop_eval)
  have ct: "code_text [text_cell ''code'' ''a''] = ''a\<newline>\<newline>''"
    "code_text [text_cell ''raw'' ''b''] = []"
    by (simp_all add: code_text_def is_code_def payload_def loop_eval)
  from code_payload_verbatim [where nbread = "\<lambda>t. Some nb",
      OF scenario_files(1) h2 scenario_files(12) h4 h5 h6 h7 h8, of "''nb.jl''"] h9
  have "convert_notebook_to_julia (\<lambda>t. Some nb) ''nb.ipynb'' ''nb.jl'' scenario_world =
   (Inr (),
    scenario_world\<lparr>files := (files scenario_world)(''nb.jl'' \<mapsto>
      ''a\<newline>\<newline>'' @
      [CHR 0x22, CHR 0x5C, CHR 0x0A, CHR 0x09, CHR 0xC3, CHR 0xA9,
       CHR 0xF0, CHR 0x9F, CHR 0x98, CHR 0x80] @ ''\<newline>\<newline>'')\<rparr>)"
    by (simp add: ct)
  then show ?thesis unfolding nb_def c_def .
qed

text \<open>
  C5 as stated fails. The reader returns a notebook that is not of the expected
  structure: its second code cell has no source. The conversion fails with
  \<open>AttributeError\<close> after the output file was opened, and the older file at the output path,
  which held \<open>kept\<close>, is left with the text of the first code cell only.
\<close>

theorem missing_source_counterexample:
  "files scenario_world ''m.ipynb'' = Some ''{no source}'' \<and>
   scenario_nbread ''{no source}'' =
     Some \<lparr>cells =
       [text_cell ''code'' ''a'',
        \<lparr>cell_type = Some (Str (str_of ''code'')), source = None\<rparr>,
        text_cell ''code'' ''b'']\<rparr> \<and>
   files scenario_world ''m.jl'' = Some ''kept'' \<and>
   convert_notebook_to_julia scenario_nbread ''m.ipynb'' ''m.jl'' scenario_world =
     (Inl (AttributeError ''source''),
      scenario_world\<lparr>files := (files scenario_world)(''m.jl'' \<mapsto> ''a\<newline>\<newline>'')\<rparr>)"
  using convert_run [where nbread = scenario_nbread, OF scenario_files(7) scenario_reads(4)
      scenario_files(12), of "''m.jl''"]
  by (simp add: scenario_files scenario_reads scenario_loops) (simp add: no_source_cells_def)

text \<open>
  C5, amended. When the notebook file cannot be opened, or \<open>nbformat.read\<close> raises on its
  text, \<open>convert_notebook_to_julia\<close> raises that error and leaves the world as it was: the
  output path is opened only after the notebook has been read, so no output file is
  created, truncated or partly written. The error passes through \<open>main\<close> unchanged, and
  nothing is printed.
\<close>

theorem failed_read_leaves_world:
  assumes "files w notebook_path = None \<or>
           (\<exists>t. files w notebook_path = Some t \<and> nbread t = None)"
  shows "convert_notebook_to_julia nbread notebook_path output_path w =
           (Inl (if files w notebook_path = None then OSError notebook_path else ReadError), w)
         \<and> (endswith notebook_path ''.ipynb'' \<longrightarrow>
              main nbread notebook_path w =
                (Inl (if files w notebook_path = None then OSError notebook_path
                      else ReadError), w))"
proof -
  have c: "convert_notebook_to_julia nbread notebook_path op w =
           (Inl (if files w notebook_path = None then OSError notebook_path else ReadError), w)"
    for op
    by (rule convert_read_failure [OF assms])
  then show ?thesis by (simp add: main_def Let_def)
qed

text \<open>
  A file that is not a notebook: the older file at the output path keeps its content.
\<close>

theorem failed_read_leaves_world_witness:
  "files scenario_world ''bad.ipynb'' = Some ''not a notebook'' \<and>
   scenario_nbread ''not a notebook'' = None \<and>
   endswith ''bad.ipynb'' ''.ipynb'' \<and>
   convert_notebook_to_julia scenario_nbread ''bad.ipynb'' ''bad.jl'' scenario_world =
     (Inl ReadError, scenario_world) \<and>
   main scenario_nbread ''bad.ipynb'' scenario_world = (Inl ReadError, scenario_world) \<and>
   files scenario_world ''bad.jl'' = Some ''kept''"
proof -
  have h: "files scenario_world ''bad.ipynb'' = None \<or>
           (\<exists>t. files scenario_world ''bad.ipynb'' = Some t \<and> scenario_nbread t = None)"
    using scenario_files(4) scenario_reads(7) by simp
  from failed_read_leaves_world [where nbread = scenario_nbread, OF h, of "''bad.jl''"]
    scenario_files(4,5) scenario_reads(7) scenario_paths(6)
  show ?thesis by simp
qed

text \<open>
  C6. Run the converter on a notebook, and then again on the world the first run left.
  Both runs end the same way, after the first run the output file holds what the loop
  writes for this notebook through a fresh file object, whatever was at the output path
  before (\<open>w\<close> is arbitrary there), and the second run leaves every file as the first run
  left it. When the loop gets past every cell, both runs return normally and that
  content is the text of the code cells.
\<close>

theorem rerun_replaces_output:
  assumes "endswith p ''.ipynb''" and "files w p = Some txt" and "nbread txt = Some nb"
    and "can_write w (output_path_of p)"
  shows "\<exists>r w1 w2. main nbread p w = (r, w1) \<and> main nbread p w1 = (r, w2) \<and>
           files w1 = (files w)(output_path_of p \<mapsto> snd (write_cells (cells nb) [])) \<and>
           files w2 = files w1 \<and>
           ((\<forall>c\<in>set (cells nb). writable c) \<longrightarrow>
              r = Inr () \<and> files w1 (output_path_of p) = Some (code_text (cells nb)))"
proof -
  let ?out = "output_path_of p"
  let ?f = "snd (write_cells (cells nb) [])"
  obtain r w1 where 1: "main nbread p w = (r, w1)"
    by (cases "main nbread p w")
  have f1: "files w1 = (files w)(?out \<mapsto> ?f)" and c1: "can_write w1 = can_write w"
    and r1: "r = (case fst (write_cells (cells nb) []) of Inl e \<Rightarrow> Inl e | Inr u \<Rightarrow> Inr ())"
    using 1 main_run [where nbread = nbread, OF assms]
    by (auto split: sum.splits)
  have ne: "?out \<noteq> p" by (rule output_path_differs [OF assms(1)])
  have rd: "files w1 p = Some txt" using assms(2) ne by (simp add: f1)
  have cw: "can_write w1 ?out" using assms(4) by (simp add: c1)
  obtain r' w2 where 2: "main nbread p w1 = (r', w2)"
    by (cases "main nbread p w1")
  have f2: "files w2 = (files w1)(?out \<mapsto> ?f)"
    and r2: "r' = (case fst (write_cells (cells nb) []) of Inl e \<Rightarrow> Inl e | Inr u \<Rightarrow> Inr ())"
    using 2 main_run [where nbread = nbread, OF assms(1) rd assms(3) cw]
    by (auto split: sum.splits)
  have 3: "files w2 = files w1" by (simp add: f2 f1)
  have 4: "r = Inr () \<and> files w1 ?out = Some (code_text (cells nb))"
    if "\<forall>c\<in>set (cells nb). writable c"
    using write_cells_writable [OF that, of "[]"] by (simp add: r1 f1)
  from 1 2 r1 r2 f1 3 4 show ?thesis by auto
qed

text \<open>
  The scenario, with an older file \<open>nb.jl\<close> in the way.
\<close>

theorem rerun_replaces_output_witness:
  "endswith ''nb.ipynb'' ''.ipynb'' \<and>
   files scenario_world ''nb.ipynb'' = Some ''{scenario}'' \<and>
   scenario_nbread ''{scenario}'' = Some \<lparr>cells = scenario_cells\<rparr> \<and>
   can_write scenario_world (output_path_of ''nb.ipynb'') \<and>
   files scenario_world ''nb.jl'' = Some ''old text'' \<and>
   (\<exists>w1 w2. main scenario_nbread ''nb.ipynb'' scenario_world = (Inr (), w1) \<and>
      main scenario_nbread ''nb.ipynb'' w1 = (Inr (), w2) \<and>
      files w1 ''nb.jl'' = Some ''x = 1\<newline>\<newline>y = 2\<newline>\<newline>'' \<and>
      files w2 = files w1)"
proof -
  have w: "\<forall>c\<in>set (cells \<lparr>cells = scenario_cells\<rparr>). writable c"
    using scenario_writable(1) by simp
  from rerun_replaces_output [where nbread = scenario_nbread,
      OF scenario_paths(4) scenario_files(1) scenario_reads(1) scenario_files(12)] w
  have "\<exists>w1 w2. main scenario_nbread ''nb.ipynb'' scenario_world = (Inr (), w1) \<and>
      main scenario_nbread ''nb.ipynb'' w1 = (Inr (), w2) \<and>
      files w1 ''nb.jl'' = Some ''x = 1\<newline>\<newline>y = 2\<newline>\<newline>'' \<and>
      files w2 = files w1"
    by (simp only: scenario_paths(1) scenario_code_text(1) notebook.simps) blast
  with scenario_paths(4) scenario_files(1,2,12) scenario_reads(1) show ?thesis
    by (intro conjI)
qed




text \<open>
  C8 as stated fails. For the notebook path \<open>a\nb.ipynb\<close>, with a newline character in
  the file name, the run succeeds with status 0, and what it prints is three lines, not
  one.
\<close>

theorem newline_path_counterexample:
  "fst (main scenario_nbread ''a\<newline>b.ipynb'' scenario_world) = Inr () \<and>
   fst (run_script scenario_nbread ''a\<newline>b.ipynb'' scenario_world) = 0 \<and>
   stdout (snd (main scenario_nbread ''a\<newline>b.ipynb'' scenario_world)) =
     ''Converted a\<newline>b.ipynb to a\<newline>b.jl\<newline>'' \<and>
   count_list (stdout (snd (main scenario_nbread ''a\<newline>b.ipynb'' scenario_world)))
     (CHR ''\<newline>'') = 3"
proof -
  have w: "\<forall>c\<in>set (cells \<lparr>cells = scenario_cells\<rparr>). writable c"
    using scenario_writable(1) by simp
  have "main scenario_nbread ''a\<newline>b.ipynb'' scenario_world =
          (Inr (),
           scenario_world\<lparr>files := (files scenario_world)(''a\<newline>b.jl'' \<mapsto>
                             ''x = 1\<newline>\<newline>y = 2\<newline>\<newline>''),
                          stdout := ''Converted a\<newline>b.ipynb to a\<newline>b.jl\<newline>''\<rparr>)"
    using main_ok [where nbread = scenario_nbread,
        OF scenario_paths(7) scenario_files(11) scenario_reads(1) scenario_files(12) w]
    by (simp add: scenario_paths(8) scenario_code_text(1) scenario_files(13))
  then show ?thesis by (simp add: run_script_def)
qed

text \<open>
  C8, amended. When \<open>main\<close> returns normally, the files afterwards are the files before
  with the one entry at the derived output path set (created or replaced), every other
  path as it was; standard output has grown by the one text
  \<open>Converted <notebook> to <output>\<close> and its newline, which is a single line whenever the
  notebook path has no newline character in it; and the script exits with status 0.
\<close>

theorem successful_run_effects:
  assumes "main nbread p w = (Inr (), w')"
  shows "(\<exists>content. files w' = (files w)(output_path_of p \<mapsto> content)) \<and>
         stdout w' = stdout w @ ''Converted '' @ p @ '' to '' @ output_path_of p @ ''\<newline>'' \<and>
         (CHR ''\<newline>'' \<notin> set p \<longrightarrow>
            CHR ''\<newline>'' \<notin> set (''Converted '' @ p @ '' to '' @ output_path_of p)) \<and>
         can_write w' = can_write w \<and>
         run_script nbread p w = (0, w')"
proof -
  from main_success [OF assms] obtain content where
    w': "w' = w\<lparr>files := (files w)(output_path_of p \<mapsto> content),
                 stdout := stdout w @ ''Converted '' @ p @ '' to '' @ output_path_of p
                             @ ''\<newline>''\<rparr>"
    by (elim conjE exE)
  have "files w' = (files w)(output_path_of p \<mapsto> content)"
    unfolding w' by simp
  then have 1: "\<exists>content. files w' = (files w)(output_path_of p \<mapsto> content)" ..
  have 2: "stdout w' = stdout w @ ''Converted '' @ p @ '' to '' @ output_path_of p @ ''\<newline>''"
    unfolding w' by simp
  have 3: "CHR ''\<newline>'' \<notin> set (''Converted '' @ p @ '' to '' @ output_path_of p)"
    if "CHR ''\<newline>'' \<notin> set p"
    using that output_path_chars [of p] by auto
  have 4: "can_write w' = can_write w"
    unfolding w' by simp
  have 5: "run_script nbread p w = (0, w')"
    using assms by (simp add: run_script_def)
  from 1 2 3 4 5 show ?thesis by blast
qed

text \<open>
  The scenario: one file set, one line printed, status 0.
\<close>

theorem successful_run_effects_witness:
  "\<exists>w'. main scenario_nbread ''nb.ipynb'' scenario_world = (Inr (), w') \<and>
      files w' = (files scenario_world)(''nb.jl'' \<mapsto>
                    ''x = 1\<newline>\<newline>y = 2\<newline>\<newline>'') \<and>
      stdout w' = ''Converted nb.ipynb to nb.jl\<newline>'' \<and>
      CHR ''\<newline>'' \<notin> set ''nb.ipynb'' \<and>
      CHR ''\<newline>'' \<notin> set ''Converted nb.ipynb to nb.jl'' \<and>
      run_script scenario_nbread ''nb.ipynb'' scenario_world = (0, w')"
proof -
  have w: "\<forall>c\<in>set (cells \<lparr>cells = scenario_cells\<rparr>). writable c"
    using scenario_writable(1) by simp
  define w' where "w' = scenario_world\<lparr>files := (files scenario_world)(''nb.jl'' \<mapsto>
                    ''x = 1\<newline>\<newline>y = 2\<newline>\<newline>''),
                  stdout := ''Converted nb.ipynb to nb.jl\<newline>''\<rparr>"
  have m: "main scenario_nbread ''nb.ipynb'' scenario_world = (Inr (), w')"
    using main_ok [where nbread = scenario_nbread,
        OF scenario_paths(4) scenario_files(1) scenario_reads(1) scenario_files(12) w]
    by (simp add: scenario_paths(1) scenario_code_text(1) scenario_files(13) w'_def)
  have f: "files w' = (files scenario_world)(''nb.jl'' \<mapsto>
                    ''x = 1\<newline>\<newline>y = 2\<newline>\<newline>'')"
    by (simp add: w'_def)
  have n: "CHR ''\<newline>'' \<notin> set ''nb.ipynb''" by simp
  from successful_run_effects [OF m] n
  have "stdout w' = ''Converted nb.ipynb to nb.jl\<newline>'' \<and>
        CHR ''\<newline>'' \<notin> set ''Converted nb.ipynb to nb.jl'' \<and>
        run_script scenario_nbread ''nb.ipynb'' scenario_world = (0, w')"
    by (simp add: scenario_paths(1) scenario_files(13))
  with m f n show ?thesis by blast
qed

text \<open>
  C9. For the path \<open>.ipynb\<close>, and for every path whose last component is \<open>.ipynb\<close>, the
  extension check of \<open>main\<close> passes and the output path is the whole input path followed
  by \<open>.jl\<close>.
\<close>

theorem dotfile_output_path_appends:
  assumes "p = ''.ipynb'' \<or> (\<exists>d. p = d @ ''/.ipynb'')"
  shows "endswith p ''.ipynb'' \<and> output_path_of p = p @ ''.jl''"
proof -
  from assms obtain stem where p: "p = stem @ ''.ipynb''"
    and s: "stem = [] \<or> (\<exists>d. stem = d @ ''/'')"
    by auto
  have "file_name stem = []"
    using s by (auto simp: file_name_def)
  then have "output_path_of p = stem @ ''.ipynb.jl''"
    unfolding p by (simp add: output_path_of_stem)
  moreover have "endswith p ''.ipynb''"
    unfolding p by (simp add: endswith_def)
  ultimately show ?thesis by (simp add: p)
qed

text \<open>
  The path \<open>notes/.ipynb\<close> gives \<open>notes/.ipynb.jl\<close>.
\<close>

theorem dotfile_output_path_appends_witness:
  "(''notes/.ipynb'' = ''.ipynb'' \<or> (\<exists>d. ''notes/.ipynb'' = d @ ''/.ipynb'')) \<and>
   endswith ''notes/.ipynb'' ''.ipynb'' \<and>
   output_path_of ''notes/.ipynb'' = ''notes/.ipynb.jl''"
proof -
  have "''notes/.ipynb'' = ''notes'' @ ''/.ipynb''" by simp
  then have h: "''notes/.ipynb'' = ''.ipynb'' \<or> (\<exists>d. ''notes/.ipynb'' = d @ ''/.ipynb'')"
    by blast
  from dotfile_output_path_appends [OF h] h show ?thesis by simp
qed

text \<open>
  C10. A path that ends in a spelling \<open>e\<close> of \<open>.ipynb\<close> with some letter in upper case
  (lower-casing \<open>e\<close> gives \<open>.ipynb\<close>, and \<open>e\<close> is not \<open>.ipynb\<close> itself) fails the check, and
  \<open>main\<close> raises the extension error with the world left as it was.
\<close>

theorem extension_check_case_sensitive:
  assumes "map ascii_lower e = ''.ipynb''" and "e \<noteq> ''.ipynb''"
  shows "\<not> endswith (stem @ e) ''.ipynb'' \<and>
         main nbread (stem @ e) w =
           (Inl (ValueError ''Input file must have a .ipynb extension''), w)"
proof -
  have "length (map ascii_lower e) = length ''.ipynb''"
    by (simp only: assms(1))
  then have "length e = length ''.ipynb''" by simp
  then have "\<not> endswith (stem @ e) ''.ipynb''"
    using assms(2) by (simp add: endswith_same_length)
  then show ?thesis by (simp add: main_wrong_extension)
qed

text \<open>
  The path \<open>notes.IPYNB\<close>.
\<close>

theorem extension_check_case_sensitive_witness:
  "map ascii_lower ''.IPYNB'' = ''.ipynb'' \<and> ''.IPYNB'' \<noteq> ''.ipynb'' \<and>
   \<not> endswith ''notes.IPYNB'' ''.ipynb'' \<and>
   main scenario_nbread ''notes.IPYNB'' scenario_world =
     (Inl (ValueError ''Input file must have a .ipynb extension''), scenario_world)"
proof -
  have h1: "map ascii_lower ''.IPYNB'' = ''.ipynb''" by code_simp
  have h2: "''.IPYNB'' \<noteq> ''.ipynb''" by simp
  from extension_check_case_sensitive [OF h1 h2, of "''notes''" scenario_nbread scenario_world]
    h1 h2
  show ?thesis by simp
qed

end
